theory Spec2Isabelle
  imports Complex_Main
begin

section \<open>Data model of mastodon_filter_ollama_v4.py\<close>

text \<open>
  The values that \<open>json.loads\<close> puts into the classifier's reply. Numbers are kept as
  reals: the comparison with the literal \<open>0.6\<close>, read as 6/10, is the only arithmetic
  done on them, and the non-finite floats (NaN, Infinity) have no counterpart here, nor
  have integers beyond the range of a float, on which the format \<open>:.2f\<close> of the log
  lines raises \<open>OverflowError\<close>. Lists and nested dictionaries are opaque, since the
  program only ever formats or compares them.
\<close>

datatype jval = JNull | JBool bool | JNum real | JStr string | JList | JDict

text \<open>The exceptions that occur in the modelled code.\<close>

datatype error = AttributeError | KeyError | TypeError | ValueError | ApiError

text \<open>
  \<open>Config\<close>: the dataclass fields that the moderation logic reads. File names, the
  model name and the two sleep intervals do not influence any decision.
\<close>

record config =
  dry_run :: bool
  allowlist :: "string list"
  max_retries :: int
  mute_threshold :: int
  block_threshold :: int
  send_warnings :: bool
  new_account_days :: int
  new_account_instant_block :: bool
  new_account_no_warning :: bool

text \<open>The defaults of the dataclass, with the allowlist that \<open>__post_init__\<close> fills in.\<close>

definition default_config :: config where
  "default_config =
     \<lparr>dry_run = True,
      allowlist = [''friend@mastodon.social'', ''another_friend@example.com'',
                   ''news_bot_i_like@botsin.space''],
      max_retries = 3,
      mute_threshold = 1,
      block_threshold = 3,
      send_warnings = True,
      new_account_days = 30,
      new_account_instant_block = True,
      new_account_no_warning = True\<rparr>"

section \<open>InfractionTracker\<close>

text \<open>
  One history entry: the time of the call (seconds, read from the clock by
  \<open>datetime.now()\<close>), and the classification and reason handed to \<open>add_infraction\<close>.
\<close>

record entry =
  timestamp :: int
  classification :: jval
  reason :: jval

record infraction =
  count :: int
  history :: "entry list"

text \<open>
  \<open>self.infractions\<close>: a dictionary from the account handle to its record. \<open>_save\<close>
  rewrites the file with exactly this dictionary after every change, so the file
  carries no state of its own.
\<close>

type_synonym tracker = "string \<rightharpoonup> infraction"

definition add_infraction :: "tracker \<Rightarrow> string \<Rightarrow> jval \<Rightarrow> jval \<Rightarrow> int \<Rightarrow> tracker" where
  "add_infraction t user_acct cls rsn ts =
     (let r = (case t user_acct of
                 None \<Rightarrow> \<lparr>count = 0, history = []\<rparr>
               | Some r0 \<Rightarrow> r0)
      in t(user_acct \<mapsto>
           \<lparr>count = count r + 1,
            history = history r @ [\<lparr>timestamp = ts, classification = cls, reason = rsn\<rparr>]\<rparr>))"

definition get_count :: "tracker \<Rightarrow> string \<Rightarrow> int" where
  "get_count t user_acct =
     (case t user_acct of None \<Rightarrow> 0 | Some r \<Rightarrow> count r)"

definition reset :: "tracker \<Rightarrow> string \<Rightarrow> tracker" where
  "reset t user_acct =
     (case t user_acct of
        None \<Rightarrow> t
      | Some r \<Rightarrow> t(user_acct := None))"

text \<open>
  The three public operations as data, and a run of them. \<open>get_count\<close> only reads.
\<close>

datatype tracker_op =
    Add_infraction string jval jval int
  | Get_count string
  | Reset string

fun apply_tracker_op :: "tracker \<Rightarrow> tracker_op \<Rightarrow> tracker" where
  "apply_tracker_op t (Add_infraction a c r n) = add_infraction t a c r n"
| "apply_tracker_op t (Get_count a) = t"
| "apply_tracker_op t (Reset a) = reset t a"

fun apply_tracker_ops :: "tracker \<Rightarrow> tracker_op list \<Rightarrow> tracker" where
  "apply_tracker_ops t [] = t"
| "apply_tracker_ops t (x # xs) = apply_tracker_ops (apply_tracker_op t x) xs"

text \<open>The ledger invariant: in every record the counter is the length of the history.\<close>

definition count_is_length :: "tracker \<Rightarrow> bool" where
  "count_is_length t = (\<forall>a r. t a = Some r \<longrightarrow> count r = int (length (history r)))"

fun resets :: "string \<Rightarrow> tracker_op \<Rightarrow> bool" where
  "resets a (Reset b) = (a = b)"
| "resets a (Add_infraction b c r n) = False"
| "resets a (Get_count b) = False"

definition history_of :: "tracker \<Rightarrow> string \<Rightarrow> entry list" where
  "history_of t a = (case t a of None \<Rightarrow> [] | Some r \<Rightarrow> history r)"

section \<open>The outside world\<close>

text \<open>
  What the classifier produced on one attempt: \<open>client.chat\<close> (or the lookup of the
  message content) raised, \<open>json.loads\<close> raised, or it returned a value that is a
  dictionary or something else. A dictionary is a list of key-value pairs read with
  \<open>map_of\<close>.
\<close>

type_synonym decision = "(string \<times> jval) list"

datatype reply = Chat_raises | Loads_raises | Loaded_other | Loaded_dict decision

text \<open>
  The environment of one poll cycle: the clock, the classifier's reply to a text on the
  i-th attempt, and whether the two moderation calls of the Mastodon client return
  (\<open>None\<close>) or raise.
\<close>

record env =
  now :: int
  chat :: "string \<Rightarrow> nat \<Rightarrow> reply"
  account_block :: "string \<Rightarrow> error option"
  account_mute :: "string \<Rightarrow> error option"

text \<open>
  The account dictionary of a status. \<open>created_at\<close> is \<open>Some c\<close> for a value that
  \<open>date_parser.parse\<close> turns into the time \<open>c\<close> (seconds), such as an ISO string,
  and \<open>None\<close> for a value on which it raises. The dictionaries that
  \<open>mastodon.notifications\<close> returns carry \<open>created_at\<close> as a \<open>datetime\<close>
  object, not as a string; \<open>date_parser.parse\<close> raises \<open>TypeError\<close> on it, so
  for them the field is \<open>None\<close>.
\<close>

record account =
  account_id :: string
  acct :: string
  created_at :: "int option"

record notification =
  notif_id :: string
  status_id :: string
  author :: account
  content :: string

text \<open>
  The observable effects, in program order: every call of the Mastodon client and every
  log line of \<open>ActionHandler\<close>, \<open>process_notification\<close> and \<open>run\<close>. The log
  lines and sleeps inside \<open>analyze\<close> are not recorded. By source line:
  \<open>Log_no_action\<close> 216, \<open>Log_low_confidence\<close> 220, \<open>Log_allowlisted\<close> 225,
  \<open>Log_new_account\<close> 200, \<open>Log_age_error\<close> 204, \<open>Log_new_hostile\<close> 231,
  \<open>Call_account_block\<close> 234 and 296, \<open>Call_account_mute\<close> 294,
  \<open>Log_blocked_new\<close> 235, \<open>Log_block_failed\<close> 237,
  \<open>Log_dry_run_instant_block\<close> 239, \<open>Log_tracking\<close> 257, \<open>Log_executing\<close> 286,
  \<open>Log_dry_run\<close> 289, \<open>Log_success\<close> 298, \<open>Log_failed\<close> 300,
  \<open>Log_processing\<close> 363 to 365, \<open>Log_checking\<close> 391, \<open>Log_no_new\<close> 400,
  \<open>Log_found\<close> 402, \<open>Log_main_loop_error\<close> 410, \<open>Log_sleeping\<close> 412.
\<close>

datatype event =
    Log_no_action string
  | Log_low_confidence string
  | Log_allowlisted string
  | Log_new_account string int
  | Log_age_error
  | Log_new_hostile string
  | Call_account_block string
  | Call_account_mute string
  | Log_blocked_new string
  | Log_block_failed string error
  | Log_dry_run_instant_block string
  | Log_tracking int string
  | Log_executing string string int
  | Log_dry_run string string
  | Log_success string string
  | Log_failed string string error
  | Log_processing string string
  | Log_checking
  | Log_no_new
  | Log_found nat
  | Log_main_loop_error error
  | Log_sleeping

section \<open>AIAnalyzer.analyze\<close>

definition required_keys :: "string list" where
  "required_keys = [''classification'', ''reason'', ''confidence'']"

definition valid_classifications :: "jval list" where
  "valid_classifications =
     [JStr ''NEUTRAL'', JStr ''MILDLY_NEGATIVE'', JStr ''SEVERELY_NEGATIVE'']"

text \<open>Lists and dictionaries cannot be looked up in a Python set: \<open>in\<close> raises.\<close>

fun hashable :: "jval \<Rightarrow> bool" where
  "hashable JList = False"
| "hashable JDict = False"
| "hashable v = True"

text \<open>
  The format \<open>:.2f\<close> of the log line accepts numbers, and booleans as 1 and 0; it
  raises on every other value.
\<close>

fun number_of :: "jval \<Rightarrow> real option" where
  "number_of (JNum x) = Some x"
| "number_of (JBool b) = Some (if b then 1 else 0)"
| "number_of v = None"

text \<open>The body of the \<open>try\<close>: the validated dictionary, or the exception raised.\<close>

definition attempt :: "reply \<Rightarrow> error + decision" where
  "attempt r =
     (case r of
        Chat_raises \<Rightarrow> Inl ApiError
      | Loads_raises \<Rightarrow> Inl ValueError
      | Loaded_other \<Rightarrow> Inl AttributeError
      | Loaded_dict ai_decision \<Rightarrow>
          if \<not> list_all (\<lambda>k. map_of ai_decision k \<noteq> None) required_keys then Inl ValueError
          else (case map_of ai_decision ''classification'' of
                  None \<Rightarrow> Inl KeyError
                | Some c \<Rightarrow>
                    if \<not> hashable c then Inl TypeError
                    else if c \<notin> set valid_classifications then Inl ValueError
                    else (case map_of ai_decision ''confidence'' of
                            None \<Rightarrow> Inl KeyError
                          | Some f \<Rightarrow>
                              if number_of f = None
                              then Inl (case f of JStr s \<Rightarrow> ValueError | v \<Rightarrow> TypeError)
                              else Inr ai_decision)))"

definition fail_safe :: decision where
  "fail_safe =
     [(''classification'', JStr ''NEUTRAL''),
      (''reason'', JStr ''AI analysis failed - defaulting to safe classification''),
      (''confidence'', JNum 0)]"

text \<open>
  The \<open>for attempt in range(max_retries)\<close> loop: \<open>i\<close> is the attempt, the last
  argument the number of attempts left. \<open>except Exception\<close> catches whatever the
  attempt raised and goes on to the next one.
\<close>

fun retry_loop :: "(nat \<Rightarrow> reply) \<Rightarrow> nat \<Rightarrow> nat \<Rightarrow> decision" where
  "retry_loop replies i 0 = fail_safe"
| "retry_loop replies i (Suc k) =
     (case attempt (replies i) of
        Inr ai_decision \<Rightarrow> ai_decision
      | Inl x \<Rightarrow> retry_loop replies (Suc i) k)"

definition analyze :: "config \<Rightarrow> env \<Rightarrow> string \<Rightarrow> decision" where
  "analyze cfg e text = retry_loop (chat e text) 0 (nat (max_retries cfg))"

text \<open>
  What \<open>take_action\<close> relies on in a verdict: one of the three classifications,
  a reason, and a confidence that is a number.
\<close>

definition well_formed :: "decision \<Rightarrow> bool" where
  "well_formed d =
     ((case map_of d ''classification'' of
         None \<Rightarrow> False
       | Some c \<Rightarrow> c \<in> set valid_classifications) \<and>
      map_of d ''reason'' \<noteq> None \<and>
      (case map_of d ''confidence'' of
         None \<Rightarrow> False
       | Some f \<Rightarrow> number_of f \<noteq> None))"

section \<open>ActionHandler\<close>

record outcome =
  tracker_after :: tracker
  events :: "event list"
  raised :: "error option"

text \<open>
  \<open>(datetime.now(tz) - created_at).days\<close> is the floor of the difference in days.
  Any exception while parsing makes the account count as established.
\<close>

definition is_new_account :: "config \<Rightarrow> env \<Rightarrow> account \<Rightarrow> bool \<times> event list" where
  "is_new_account cfg e a =
     (case created_at a of
        None \<Rightarrow> (False, [Log_age_error])
      | Some created \<Rightarrow>
          (let account_age = (now e - created) div 86400;
               is_new = (account_age \<le> new_account_days cfg)
           in (is_new, if is_new then [Log_new_account (acct a) account_age] else [])))"

definition determine_action :: "config \<Rightarrow> jval \<Rightarrow> int \<Rightarrow> string" where
  "determine_action cfg cls infraction_count =
     (if cls = JStr ''SEVERELY_NEGATIVE'' then
        (if infraction_count \<ge> block_threshold cfg then ''block'' else ''mute'')
      else if cls = JStr ''MILDLY_NEGATIVE'' then
        (if infraction_count \<ge> block_threshold cfg then ''block''
         else if infraction_count \<ge> mute_threshold cfg then ''mute''
         else ''none'')
      else ''none'')"

text \<open>
  \<open>_execute_action\<close> catches the exception of the client call itself, so it only
  produces effects.
\<close>

definition execute_action ::
  "config \<Rightarrow> env \<Rightarrow> string \<Rightarrow> string \<Rightarrow> string \<Rightarrow> int \<Rightarrow> event list" where
  "execute_action cfg e author_id author_acct action infraction_count =
     Log_executing action author_acct infraction_count #
     (if dry_run cfg then [Log_dry_run action author_acct]
      else if action = ''mute'' then
        Call_account_mute author_id #
        (case account_mute e author_id of
           None \<Rightarrow> [Log_success action author_acct]
         | Some x \<Rightarrow> [Log_failed action author_acct x])
      else if action = ''block'' then
        Call_account_block author_id #
        (case account_block e author_id of
           None \<Rightarrow> [Log_success action author_acct]
         | Some x \<Rightarrow> [Log_failed action author_acct x])
      else [Log_success action author_acct])"

text \<open>The two \<open>decision.get\<close> calls with their defaults.\<close>

definition get_classification :: "decision \<Rightarrow> jval" where
  "get_classification d =
     (case map_of d ''classification'' of None \<Rightarrow> JStr ''NEUTRAL'' | Some v \<Rightarrow> v)"

definition get_confidence :: "decision \<Rightarrow> jval" where
  "get_confidence d = (case map_of d ''confidence'' of None \<Rightarrow> JNum 0 | Some v \<Rightarrow> v)"

text \<open>
  \<open>confidence < 0.6\<close>: a number (or boolean) is compared, anything else raises
  \<open>TypeError\<close>, which is \<open>None\<close> here.
\<close>

definition py_less :: "jval \<Rightarrow> real \<Rightarrow> bool option" where
  "py_less v x = (case number_of v of None \<Rightarrow> None | Some y \<Rightarrow> Some (y < x))"

text \<open>Truth value of the optional \<open>status_id\<close>: neither \<open>None\<close> nor empty.\<close>

definition truthy :: "string option \<Rightarrow> bool" where
  "truthy s = (case s of None \<Rightarrow> False | Some v \<Rightarrow> v \<noteq> [])"

text \<open>The condition under which line 251 calls \<open>self._send_warning\<close>.\<close>

definition warning_due :: "config \<Rightarrow> bool \<Rightarrow> string option \<Rightarrow> bool" where
  "warning_due cfg is_new sid =
     (send_warnings cfg \<and> truthy sid \<and> \<not> (is_new \<and> new_account_no_warning cfg))"

text \<open>
  \<open>take_action\<close>. The class \<open>ActionHandler\<close> defines \<open>__init__\<close>,
  \<open>_is_new_account\<close>, \<open>take_action\<close>, \<open>_determine_action\<close> and
  \<open>_execute_action\<close>; no \<open>_send_warning\<close> exists in the class or anywhere else in
  the repository. Looking the attribute up therefore raises \<open>AttributeError\<close>, and the
  call is not inside any \<open>try\<close> of \<open>take_action\<close>. The infraction written before
  that line stays written.
\<close>

definition take_action ::
  "config \<Rightarrow> env \<Rightarrow> tracker \<Rightarrow> account \<Rightarrow> decision \<Rightarrow> string option \<Rightarrow> outcome" where
  "take_action cfg e t a d sid =
     (let author_id = account_id a;
          author_acct = acct a;
          cls = get_classification d;
          confidence = get_confidence d
      in if cls = JStr ''NEUTRAL'' then
           \<lparr>tracker_after = t, events = [Log_no_action author_acct], raised = None\<rparr>
         else (case py_less confidence (6 / 10) of
           None \<Rightarrow> \<lparr>tracker_after = t, events = [], raised = Some TypeError\<rparr>
         | Some True \<Rightarrow>
             \<lparr>tracker_after = t, events = [Log_low_confidence author_acct], raised = None\<rparr>
         | Some False \<Rightarrow>
             if author_acct \<in> set (allowlist cfg) then
               \<lparr>tracker_after = t, events = [Log_allowlisted author_acct], raised = None\<rparr>
             else
               (let (is_new, ev_new) = is_new_account cfg e a;
                    is_hostile = (cls \<in> set [JStr ''MILDLY_NEGATIVE'', JStr ''SEVERELY_NEGATIVE''])
                in if is_new \<and> new_account_instant_block cfg \<and> is_hostile then
                     \<lparr>tracker_after = t,
                      events = ev_new @ Log_new_hostile author_acct #
                        (if \<not> dry_run cfg then
                           Call_account_block author_id #
                           (case account_block e author_id of
                              None \<Rightarrow> [Log_blocked_new author_acct]
                            | Some x \<Rightarrow> [Log_block_failed author_acct x])
                         else [Log_dry_run_instant_block author_acct]),
                      raised = None\<rparr>
                   else
                     (case (if is_hostile
                            then (case map_of d ''reason'' of
                                    None \<Rightarrow> Inl KeyError
                                  | Some rsn \<Rightarrow>
                                      Inr (add_infraction t author_acct cls rsn (now e)))
                            else Inr t) of
                        Inl x \<Rightarrow> \<lparr>tracker_after = t, events = ev_new, raised = Some x\<rparr>
                      | Inr t' \<Rightarrow>
                          (let infraction_count = get_count t' author_acct
                           in if warning_due cfg is_new sid then
                                \<lparr>tracker_after = t', events = ev_new,
                                 raised = Some AttributeError\<rparr>
                              else
                                (let action = determine_action cfg cls infraction_count
                                 in if action = ''none'' then
                                      \<lparr>tracker_after = t',
                                       events = ev_new @
                                         [Log_tracking infraction_count author_acct],
                                       raised = None\<rparr>
                                    else
                                      \<lparr>tracker_after = t',
                                       events = ev_new @
                                         execute_action cfg e author_id author_acct
                                           action infraction_count,
                                       raised = None\<rparr>))))))"

section \<open>NotificationProcessor and MastodonFilter\<close>

text \<open>
  The state of the running filter: the ledger, the set of processed notification ids,
  and the effects so far.
\<close>

record state =
  infractions :: tracker
  processed_ids :: "string set"
  trace :: "event list"

definition mark_processed :: "state \<Rightarrow> string \<Rightarrow> state" where
  "mark_processed st notification_id =
     st\<lparr>processed_ids := insert notification_id (processed_ids st)\<rparr>"

definition is_processed :: "state \<Rightarrow> string \<Rightarrow> bool" where
  "is_processed st notification_id = (notification_id \<in> processed_ids st)"

definition logged :: "state \<Rightarrow> event list \<Rightarrow> state" where
  "logged st evs = st\<lparr>trace := trace st @ evs\<rparr>"

text \<open>
  \<open>process_notification\<close> has no \<open>try\<close>: an exception of \<open>take_action\<close> leaves
  it before \<open>mark_processed\<close>. The text cleaning of the status content is part of the
  classifier's input and folded into \<open>chat\<close>.
\<close>

definition process_notification ::
  "config \<Rightarrow> env \<Rightarrow> state \<Rightarrow> notification \<Rightarrow> state \<times> error option" where
  "process_notification cfg e st notif =
     (let a = author notif;
          st1 = logged st [Log_processing (acct a) (notif_id notif)];
          ai_decision = analyze cfg e (content notif);
          out = take_action cfg e (infractions st1) a ai_decision (Some (status_id notif));
          st2 = logged (st1\<lparr>infractions := tracker_after out\<rparr>) (events out)
      in case raised out of
           Some x \<Rightarrow> (st2, Some x)
         | None \<Rightarrow> (mark_processed st2 (notif_id notif), None))"

text \<open>The \<open>for notif in reversed(new_notifications)\<close> loop, left by the first exception.\<close>

fun process_all ::
  "config \<Rightarrow> env \<Rightarrow> state \<Rightarrow> notification list \<Rightarrow> state \<times> error option" where
  "process_all cfg e st [] = (st, None)"
| "process_all cfg e st (n # ns) =
     (case process_notification cfg e st n of
        (st', Some x) \<Rightarrow> (st', Some x)
      | (st', None) \<Rightarrow> process_all cfg e st' ns)"

text \<open>
  One pass through the body of \<open>while True\<close>. \<open>fetched\<close> is what
  \<open>mastodon.notifications\<close> did: raise, or return the list of mentions.
\<close>

definition poll_cycle ::
  "config \<Rightarrow> state \<Rightarrow> env \<Rightarrow> error + notification list \<Rightarrow> state" where
  "poll_cycle cfg st e fetched =
     (let st0 = logged st [Log_checking];
          st1 = (case fetched of
                   Inl x \<Rightarrow> logged st0 [Log_main_loop_error x]
                 | Inr notifications \<Rightarrow>
                     (let new_notifications =
                            filter (\<lambda>n. \<not> is_processed st0 (notif_id n)) notifications
                      in if new_notifications = [] then logged st0 [Log_no_new]
                         else (case process_all cfg e
                                      (logged st0 [Log_found (length new_notifications)])
                                      (rev new_notifications) of
                                 (st', None) \<Rightarrow> st'
                               | (st', Some x) \<Rightarrow> logged st' [Log_main_loop_error x])))
      in logged st1 [Log_sleeping])"

text \<open>
  \<open>run\<close> after a successful \<open>connect\<close>: the loop never ends by itself, so the model
  runs it for as many cycles as environments and fetch results are supplied.
\<close>

fun run :: "config \<Rightarrow> state \<Rightarrow> (env \<times> (error + notification list)) list \<Rightarrow> state" where
  "run cfg st [] = st"
| "run cfg st ((e, fetched) # cycles) = run cfg (poll_cycle cfg st e fetched) cycles"

section \<open>Reading the effects\<close>

text \<open>
  Predicates on effects and inputs in which the properties are stated: a call of the
  Mastodon client, the start of the processing of a given notification id, an effect that
  comes from \<open>ActionHandler\<close>; a verdict with one of the two negative
  classifications.
\<close>

fun is_api_call :: "event \<Rightarrow> bool" where
  "is_api_call (Call_account_block a) = True"
| "is_api_call (Call_account_mute a) = True"
| "is_api_call ev = False"

fun is_processing_of :: "string \<Rightarrow> event \<Rightarrow> bool" where
  "is_processing_of i (Log_processing a j) = (i = j)"
| "is_processing_of i ev = False"

fun is_handler_event :: "event \<Rightarrow> bool" where
  "is_handler_event (Log_processing a i) = False"
| "is_handler_event Log_checking = False"
| "is_handler_event Log_no_new = False"
| "is_handler_event (Log_found k) = False"
| "is_handler_event (Log_main_loop_error x) = False"
| "is_handler_event Log_sleeping = False"
| "is_handler_event ev = True"

definition hostile :: "decision \<Rightarrow> bool" where
  "hostile d =
     (get_classification d \<in> set [JStr ''MILDLY_NEGATIVE'', JStr ''SEVERELY_NEGATIVE''])"

text \<open>Consecutive verdicts on the same author, each acting on the ledger the last one left.\<close>

fun take_actions ::
  "config \<Rightarrow> env \<Rightarrow> tracker \<Rightarrow> account \<Rightarrow> (decision \<times> string option) list \<Rightarrow> outcome list" where
  "take_actions cfg e t a [] = []"
| "take_actions cfg e t a ((d, sid) # rest) =
     (let out = take_action cfg e t a d sid
      in out # take_actions cfg e (tracker_after out) a rest)"

section \<open>Concrete inputs\<close>

text \<open>
  Inputs on which the theorems below are instantiated: a clock at day 400, an account
  created at day 0 and one created at day 395 (both with a creation time that parses, and
  the second also the way the Mastodon client delivers it, as a \<open>datetime\<close> object),
  classifier verdicts, and clients whose calls succeed or fail.
\<close>

definition severe_verdict :: decision where
  "severe_verdict =
     [(''classification'', JStr ''SEVERELY_NEGATIVE''),
      (''reason'', JStr ''direct insult''),
      (''confidence'', JNum (95 / 100))]"

definition mild_verdict :: decision where
  "mild_verdict =
     [(''classification'', JStr ''MILDLY_NEGATIVE''),
      (''reason'', JStr ''dismissive''),
      (''confidence'', JNum (9 / 10))]"

definition mild_verdict_08 :: decision where
  "mild_verdict_08 =
     [(''classification'', JStr ''MILDLY_NEGATIVE''),
      (''reason'', JStr ''sarcastic''),
      (''confidence'', JNum (8 / 10))]"

definition unsure_verdict :: decision where
  "unsure_verdict =
     [(''classification'', JStr ''SEVERELY_NEGATIVE''),
      (''reason'', JStr ''maybe a threat''),
      (''confidence'', JNum (5 / 10))]"

definition day400 :: env where
  "day400 =
     \<lparr>now = 400 * 86400,
      chat = (\<lambda>text i. Loaded_dict severe_verdict),
      account_block = (\<lambda>i. None),
      account_mute = (\<lambda>i. None)\<rparr>"

definition established :: account where
  "established = \<lparr>account_id = ''7'', acct = ''troll@example.org'', created_at = Some 0\<rparr>"

definition newcomer :: account where
  "newcomer =
     \<lparr>account_id = ''8'', acct = ''alt@example.org'', created_at = Some (395 * 86400)\<rparr>"

definition newcomer_from_api :: account where
  "newcomer_from_api = \<lparr>account_id = ''8'', acct = ''alt@example.org'', created_at = None\<rparr>"

definition friend :: account where
  "friend =
     \<lparr>account_id = ''9'', acct = ''friend@mastodon.social'', created_at = Some 0\<rparr>"

definition malformed_json :: env where
  "malformed_json = day400\<lparr>chat := (\<lambda>text i. Loads_raises)\<rparr>"

definition failing_client :: env where
  "failing_client = day400\<lparr>account_mute := (\<lambda>i. Some ApiError)\<rparr>"

definition live_without_warnings :: config where
  "live_without_warnings = default_config\<lparr>dry_run := False, send_warnings := False\<rparr>"

definition initial_state :: state where
  "initial_state = \<lparr>infractions = Map.empty, processed_ids = {}, trace = []\<rparr>"

definition mention_1 :: notification where
  "mention_1 =
     \<lparr>notif_id = ''n1'', status_id = ''s1'', author = established,
      content = ''<p>nobody asked you</p>''\<rparr>"

definition mention_2 :: notification where
  "mention_2 =
     \<lparr>notif_id = ''n2'', status_id = ''s2'', author = established,
      content = ''<p>you are an idiot</p>''\<rparr>"

definition three_mild_events :: "(decision \<times> string option) list" where
  "three_mild_events =
     [(mild_verdict, Some ''201''), (mild_verdict, Some ''202''), (mild_verdict, Some ''203'')]"

section \<open>Properties of the tracker\<close>

lemma count_is_length_empty: "count_is_length Map.empty"
  by (simp add: count_is_length_def)

lemma count_is_length_add:
  "count_is_length t \<Longrightarrow> count_is_length (add_infraction t a c r n)"
  by (auto simp: count_is_length_def add_infraction_def Let_def split: option.splits)

lemma count_is_length_reset: "count_is_length t \<Longrightarrow> count_is_length (reset t a)"
  by (auto simp: count_is_length_def reset_def split: option.splits if_splits)

lemma count_is_length_op: "count_is_length t \<Longrightarrow> count_is_length (apply_tracker_op t x)"
  by (cases x) (simp_all add: count_is_length_add count_is_length_reset)

lemma count_is_length_ops: "count_is_length t \<Longrightarrow> count_is_length (apply_tracker_ops t xs)"
  by (induction xs arbitrary: t) (simp_all add: count_is_length_op)

lemma get_count_add_same: "get_count (add_infraction t a c r n) a = get_count t a + 1"
  by (simp add: get_count_def add_infraction_def Let_def split: option.splits)

lemma get_count_add_other: "b \<noteq> a \<Longrightarrow> get_count (add_infraction t a c r n) b = get_count t b"
  by (simp add: get_count_def add_infraction_def Let_def)

lemma history_of_add_same:
  "history_of (add_infraction t a c r n) a =
     history_of t a @ [\<lparr>timestamp = n, classification = c, reason = r\<rparr>]"
  by (simp add: history_of_def add_infraction_def Let_def split: option.splits)

lemma get_count_reset_same: "get_count (reset t a) a = 0"
  by (simp add: get_count_def reset_def split: option.splits)

lemma reset_removes: "reset t a a = None"
  by (simp add: reset_def split: option.splits)

lemma get_count_reset_other: "b \<noteq> a \<Longrightarrow> get_count (reset t a) b = get_count t b"
  by (simp add: get_count_def reset_def split: option.splits)

lemma get_count_op_mono:
  "\<not> resets a x \<Longrightarrow> get_count t a \<le> get_count (apply_tracker_op t x) a"
proof (cases x)
  case (Add_infraction b c r n)
  then show ?thesis
    by (cases "b = a") (simp_all add: get_count_add_same get_count_add_other)
next
  case (Get_count b)
  then show ?thesis by simp
next
  case (Reset b)
  assume "\<not> resets a x"
  with Reset have "a \<noteq> b" by simp
  with Reset show ?thesis by (simp add: get_count_reset_other)
qed

lemma get_count_ops_mono:
  "list_all (\<lambda>x. \<not> resets a x) xs \<Longrightarrow> get_count t a \<le> get_count (apply_tracker_ops t xs) a"
proof (induction xs arbitrary: t)
  case Nil
  then show ?case by simp
next
  case (Cons x xs)
  from Cons.prems have nx: "\<not> resets a x" and rest: "list_all (\<lambda>x. \<not> resets a x) xs"
    by simp_all
  have "get_count t a \<le> get_count (apply_tracker_op t x) a"
    by (rule get_count_op_mono [OF nx])
  also have "\<dots> \<le> get_count (apply_tracker_ops (apply_tracker_op t x) xs) a"
    by (rule Cons.IH [OF rest])
  finally show ?case by simp
qed

text \<open>
  Claim C8. Every tracker state reached from the empty ledger, or from any ledger that
  satisfies the invariant, by a run of \<open>add_infraction\<close>, \<open>get_count\<close> and \<open>reset\<close>
  has \<open>count == len(history)\<close> in each record. \<open>add_infraction\<close> appends exactly one
  entry to the handle's history and raises its count by exactly one, leaving every other
  handle alone. A run without a \<open>reset\<close> of a handle never lowers that handle's count
  (an absent handle counts 0), and \<open>reset\<close> deletes the record, after which
  \<open>get_count\<close> is 0.
\<close>

theorem tracker_count_history_invariant:
  "count_is_length (apply_tracker_ops Map.empty xs) \<and>
   (count_is_length t \<longrightarrow> count_is_length (apply_tracker_ops t xs)) \<and>
   get_count (add_infraction t a c r n) a = get_count t a + 1 \<and>
   history_of (add_infraction t a c r n) a =
     history_of t a @ [\<lparr>timestamp = n, classification = c, reason = r\<rparr>] \<and>
   (b \<noteq> a \<longrightarrow> get_count (add_infraction t a c r n) b = get_count t b) \<and>
   (list_all (\<lambda>x. \<not> resets a x) xs \<longrightarrow>
      get_count t a \<le> get_count (apply_tracker_ops t xs) a) \<and>
   reset t a a = None \<and>
   get_count (reset t a) a = 0 \<and>
   get_count Map.empty a = 0"
proof -
  have "get_count Map.empty a = 0"
    by (simp add: get_count_def)
  then show ?thesis
    by (simp add: count_is_length_ops count_is_length_empty get_count_add_same
        history_of_add_same get_count_add_other get_count_ops_mono reset_removes
        get_count_reset_same)
qed

theorem tracker_count_history_invariant_witness:
  "count_is_length Map.empty \<and>
   list_all (\<lambda>x. \<not> resets ''a@x.org'' x)
     [Add_infraction ''a@x.org'' (JStr ''MILDLY_NEGATIVE'') (JStr ''rude'') 10,
      Get_count ''a@x.org'',
      Add_infraction ''a@x.org'' (JStr ''SEVERELY_NEGATIVE'') (JStr ''insult'') 20,
      Reset ''b@x.org''] \<and>
   ''b@x.org'' \<noteq> ''a@x.org'' \<and>
   count_is_length (apply_tracker_ops Map.empty
     [Add_infraction ''a@x.org'' (JStr ''MILDLY_NEGATIVE'') (JStr ''rude'') 10,
      Get_count ''a@x.org'',
      Add_infraction ''a@x.org'' (JStr ''SEVERELY_NEGATIVE'') (JStr ''insult'') 20,
      Reset ''b@x.org'']) \<and>
   get_count (apply_tracker_ops Map.empty
     [Add_infraction ''a@x.org'' (JStr ''MILDLY_NEGATIVE'') (JStr ''rude'') 10,
      Get_count ''a@x.org'',
      Add_infraction ''a@x.org'' (JStr ''SEVERELY_NEGATIVE'') (JStr ''insult'') 20,
      Reset ''b@x.org'']) ''a@x.org'' = 2 \<and>
   get_count (add_infraction Map.empty ''a@x.org'' (JStr ''MILDLY_NEGATIVE'') (JStr ''rude'') 10)
     ''b@x.org'' = 0"
  using tracker_count_history_invariant
    [where t = Map.empty and a = "''a@x.org''" and b = "''b@x.org''"
       and c = "JStr ''MILDLY_NEGATIVE''" and r = "JStr ''rude''" and n = 10
       and xs = "[Add_infraction ''a@x.org'' (JStr ''MILDLY_NEGATIVE'') (JStr ''rude'') 10,
      Get_count ''a@x.org'',
      Add_infraction ''a@x.org'' (JStr ''SEVERELY_NEGATIVE'') (JStr ''insult'') 20,
      Reset ''b@x.org'']"]
  by (simp add: count_is_length_empty get_count_def add_infraction_def reset_def Let_def)

section \<open>The vetoes of take_action\<close>

lemma take_action_neutral:
  "get_classification d = JStr ''NEUTRAL'' \<Longrightarrow>
   take_action cfg e t a d sid =
     \<lparr>tracker_after = t, events = [Log_no_action (acct a)], raised = None\<rparr>"
  by (simp add: take_action_def Let_def)

lemma take_action_low_confidence:
  "get_classification d \<noteq> JStr ''NEUTRAL'' \<Longrightarrow>
   py_less (get_confidence d) (6 / 10) = Some True \<Longrightarrow>
   take_action cfg e t a d sid =
     \<lparr>tracker_after = t, events = [Log_low_confidence (acct a)], raised = None\<rparr>"
  by (simp add: take_action_def Let_def)

lemma take_action_not_a_number:
  "get_classification d \<noteq> JStr ''NEUTRAL'' \<Longrightarrow>
   py_less (get_confidence d) (6 / 10) = None \<Longrightarrow>
   take_action cfg e t a d sid = \<lparr>tracker_after = t, events = [], raised = Some TypeError\<rparr>"
  by (simp add: take_action_def Let_def)

lemma take_action_allowlisted:
  "get_classification d \<noteq> JStr ''NEUTRAL'' \<Longrightarrow>
   py_less (get_confidence d) (6 / 10) = Some False \<Longrightarrow>
   acct a \<in> set (allowlist cfg) \<Longrightarrow>
   take_action cfg e t a d sid =
     \<lparr>tracker_after = t, events = [Log_allowlisted (acct a)], raised = None\<rparr>"
  by (simp add: take_action_def Let_def)

text \<open>
  Claim C3. Whenever the confidence of the verdict is below 0.6, \<open>take_action\<close>
  returns at the first or second check: the ledger is the one it was given, so
  \<open>add_infraction\<close> was not called, no call goes to the Mastodon client, the warning
  line is not reached, and the only effect is the log line of the skip.
\<close>

theorem low_confidence_no_action:
  assumes "py_less (get_confidence d) (6 / 10) = Some True"
  shows "take_action cfg e t a d sid =
           \<lparr>tracker_after = t,
            events = [if get_classification d = JStr ''NEUTRAL''
                      then Log_no_action (acct a) else Log_low_confidence (acct a)],
            raised = None\<rparr> \<and>
         tracker_after (take_action cfg e t a d sid) = t \<and>
         filter is_api_call (events (take_action cfg e t a d sid)) = [] \<and>
         raised (take_action cfg e t a d sid) = None"
proof (cases "get_classification d = JStr ''NEUTRAL''")
  case True
  then show ?thesis by (simp add: take_action_neutral)
next
  case False
  with assms show ?thesis by (simp add: take_action_low_confidence)
qed

theorem low_confidence_no_action_witness:
  "py_less (get_confidence unsure_verdict) (6 / 10) = Some True \<and>
   take_action default_config day400 Map.empty established unsure_verdict (Some ''101'') =
     \<lparr>tracker_after = Map.empty, events = [Log_low_confidence ''troll@example.org''],
      raised = None\<rparr>"
proof -
  have h: "py_less (get_confidence unsure_verdict) (6 / 10) = Some True"
    by (simp add: py_less_def get_confidence_def unsure_verdict_def)
  from low_confidence_no_action [OF h, of default_config day400 Map.empty established "Some ''101''"]
  show ?thesis
    using h by (simp add: get_classification_def unsure_verdict_def established_def)
qed

lemma py_less_cases:
  "py_less v x = None \<or> py_less v x = Some True \<or> py_less v x = Some False"
  by (cases "py_less v x") auto

lemma py_less_number: "number_of v \<noteq> None \<Longrightarrow> py_less v x \<noteq> None"
  by (cases "number_of v") (simp_all add: py_less_def)

text \<open>
  Claim C4. For an author whose handle is in the allowlist, whatever the verdict and
  whatever the ledger holds, \<open>take_action\<close> leaves the ledger as it was and sends no
  call to the client; its only effect is one of the three skip log lines, and it returns
  normally for every confidence that is a number.
\<close>

theorem allowlisted_no_action:
  assumes "acct a \<in> set (allowlist cfg)"
  shows "tracker_after (take_action cfg e t a d sid) = t \<and>
         filter is_api_call (events (take_action cfg e t a d sid)) = [] \<and>
         set (events (take_action cfg e t a d sid)) \<subseteq>
           {Log_no_action (acct a), Log_low_confidence (acct a), Log_allowlisted (acct a)} \<and>
         (number_of (get_confidence d) \<noteq> None \<longrightarrow>
            raised (take_action cfg e t a d sid) = None)"
proof (cases "get_classification d = JStr ''NEUTRAL''")
  case True
  then show ?thesis by (simp add: take_action_neutral)
next
  case False
  consider (nan) "py_less (get_confidence d) (6 / 10) = None"
    | (low) "py_less (get_confidence d) (6 / 10) = Some True"
    | (high) "py_less (get_confidence d) (6 / 10) = Some False"
    by (cases "py_less (get_confidence d) (6 / 10)") auto
  then show ?thesis
  proof cases
    case nan
    with False have "take_action cfg e t a d sid =
        \<lparr>tracker_after = t, events = [], raised = Some TypeError\<rparr>"
      by (rule take_action_not_a_number)
    moreover from nan have "number_of (get_confidence d) = None"
      using py_less_number [of "get_confidence d" "6 / 10"] by blast
    ultimately show ?thesis by simp
  next
    case low
    with False show ?thesis by (simp add: take_action_low_confidence)
  next
    case high
    with False assms show ?thesis by (simp add: take_action_allowlisted)
  qed
qed

theorem allowlisted_no_action_witness:
  "acct friend \<in> set (allowlist default_config) \<and>
   number_of (get_confidence severe_verdict) \<noteq> None \<and>
   tracker_after (take_action default_config day400
      (add_infraction Map.empty ''friend@mastodon.social'' (JStr ''SEVERELY_NEGATIVE'')
         (JStr ''old'') 5)
      friend severe_verdict (Some ''102'')) =
     add_infraction Map.empty ''friend@mastodon.social'' (JStr ''SEVERELY_NEGATIVE'')
       (JStr ''old'') 5 \<and>
   raised (take_action default_config day400
      (add_infraction Map.empty ''friend@mastodon.social'' (JStr ''SEVERELY_NEGATIVE'')
         (JStr ''old'') 5)
      friend severe_verdict (Some ''102'')) = None"
proof -
  have h: "acct friend \<in> set (allowlist default_config)"
    by (simp add: friend_def default_config_def)
  have n: "number_of (get_confidence severe_verdict) \<noteq> None"
    by (simp add: get_confidence_def severe_verdict_def)
  from allowlisted_no_action [OF h, of day400
      "add_infraction Map.empty ''friend@mastodon.social'' (JStr ''SEVERELY_NEGATIVE'')
         (JStr ''old'') 5" severe_verdict "Some ''102''"]
  show ?thesis
    using h n by simp
qed

section \<open>The paths of take_action past the vetoes\<close>

lemma take_action_instant_block:
  assumes "get_classification d \<noteq> JStr ''NEUTRAL''"
    and "py_less (get_confidence d) (6 / 10) = Some False"
    and "acct a \<notin> set (allowlist cfg)"
    and "fst (is_new_account cfg e a)"
    and "new_account_instant_block cfg"
    and "hostile d"
  shows "take_action cfg e t a d sid =
           \<lparr>tracker_after = t,
            events = snd (is_new_account cfg e a) @ Log_new_hostile (acct a) #
              (if \<not> dry_run cfg then
                 Call_account_block (account_id a) #
                 (case account_block e (account_id a) of
                    None \<Rightarrow> [Log_blocked_new (acct a)]
                  | Some x \<Rightarrow> [Log_block_failed (acct a) x])
               else [Log_dry_run_instant_block (acct a)]),
            raised = None\<rparr>"
  using assms by (simp add: take_action_def Let_def hostile_def split_beta)

lemma take_action_no_reason:
  assumes "get_classification d \<noteq> JStr ''NEUTRAL''"
    and "py_less (get_confidence d) (6 / 10) = Some False"
    and "acct a \<notin> set (allowlist cfg)"
    and "\<not> (fst (is_new_account cfg e a) \<and> new_account_instant_block cfg)"
    and "hostile d"
    and "map_of d ''reason'' = None"
  shows "take_action cfg e t a d sid =
           \<lparr>tracker_after = t, events = snd (is_new_account cfg e a), raised = Some KeyError\<rparr>"
  using assms by (auto simp: take_action_def Let_def hostile_def split_beta)

lemma take_action_hostile_warning:
  assumes "get_classification d \<noteq> JStr ''NEUTRAL''"
    and "py_less (get_confidence d) (6 / 10) = Some False"
    and "acct a \<notin> set (allowlist cfg)"
    and "\<not> (fst (is_new_account cfg e a) \<and> new_account_instant_block cfg)"
    and "hostile d"
    and "map_of d ''reason'' = Some rsn"
    and "warning_due cfg (fst (is_new_account cfg e a)) sid"
  shows "take_action cfg e t a d sid =
           \<lparr>tracker_after = add_infraction t (acct a) (get_classification d) rsn (now e),
            events = snd (is_new_account cfg e a), raised = Some AttributeError\<rparr>"
  using assms by (auto simp: take_action_def Let_def hostile_def split_beta)

lemma take_action_hostile_acts:
  assumes "get_classification d \<noteq> JStr ''NEUTRAL''"
    and "py_less (get_confidence d) (6 / 10) = Some False"
    and "acct a \<notin> set (allowlist cfg)"
    and "\<not> (fst (is_new_account cfg e a) \<and> new_account_instant_block cfg)"
    and "hostile d"
    and "map_of d ''reason'' = Some rsn"
    and "\<not> warning_due cfg (fst (is_new_account cfg e a)) sid"
  shows "take_action cfg e t a d sid =
           \<lparr>tracker_after = add_infraction t (acct a) (get_classification d) rsn (now e),
            events = snd (is_new_account cfg e a) @
              (if determine_action cfg (get_classification d)
                    (get_count t (acct a) + 1) = ''none''
               then [Log_tracking (get_count t (acct a) + 1) (acct a)]
               else execute_action cfg e (account_id a) (acct a)
                      (determine_action cfg (get_classification d) (get_count t (acct a) + 1))
                      (get_count t (acct a) + 1)),
            raised = None\<rparr>"
  using assms
  by (auto simp: take_action_def Let_def hostile_def split_beta get_count_add_same)

lemma take_action_other_warning:
  assumes "get_classification d \<noteq> JStr ''NEUTRAL''"
    and "py_less (get_confidence d) (6 / 10) = Some False"
    and "acct a \<notin> set (allowlist cfg)"
    and "\<not> hostile d"
    and "warning_due cfg (fst (is_new_account cfg e a)) sid"
  shows "take_action cfg e t a d sid =
           \<lparr>tracker_after = t, events = snd (is_new_account cfg e a),
            raised = Some AttributeError\<rparr>"
  using assms by (simp add: take_action_def Let_def hostile_def split_beta)

lemma take_action_other_tracks:
  assumes "get_classification d \<noteq> JStr ''NEUTRAL''"
    and "py_less (get_confidence d) (6 / 10) = Some False"
    and "acct a \<notin> set (allowlist cfg)"
    and "\<not> hostile d"
    and "\<not> warning_due cfg (fst (is_new_account cfg e a)) sid"
  shows "take_action cfg e t a d sid =
           \<lparr>tracker_after = t,
            events = snd (is_new_account cfg e a) @
              [Log_tracking (get_count t (acct a)) (acct a)],
            raised = None\<rparr>"
  using assms by (simp add: take_action_def Let_def hostile_def determine_action_def split_beta)

text \<open>The nine ways through \<open>take_action\<close>.\<close>

lemma take_action_path_cases
  [case_names neutral not_a_number low_confidence allowlisted instant_block no_reason
     hostile_warning hostile_acts other_warning other_tracks]:
  obtains
    "get_classification d = JStr ''NEUTRAL''"
  | "get_classification d \<noteq> JStr ''NEUTRAL''" "py_less (get_confidence d) (6 / 10) = None"
  | "get_classification d \<noteq> JStr ''NEUTRAL''" "py_less (get_confidence d) (6 / 10) = Some True"
  | "get_classification d \<noteq> JStr ''NEUTRAL''" "py_less (get_confidence d) (6 / 10) = Some False"
    "acct a \<in> set (allowlist cfg)"
  | "get_classification d \<noteq> JStr ''NEUTRAL''" "py_less (get_confidence d) (6 / 10) = Some False"
    "acct a \<notin> set (allowlist cfg)" "fst (is_new_account cfg e a)"
    "new_account_instant_block cfg" "hostile d"
  | "get_classification d \<noteq> JStr ''NEUTRAL''" "py_less (get_confidence d) (6 / 10) = Some False"
    "acct a \<notin> set (allowlist cfg)"
    "\<not> (fst (is_new_account cfg e a) \<and> new_account_instant_block cfg)"
    "hostile d" "map_of d ''reason'' = None"
  | rsn where
    "get_classification d \<noteq> JStr ''NEUTRAL''" "py_less (get_confidence d) (6 / 10) = Some False"
    "acct a \<notin> set (allowlist cfg)"
    "\<not> (fst (is_new_account cfg e a) \<and> new_account_instant_block cfg)"
    "hostile d" "map_of d ''reason'' = Some rsn"
    "warning_due cfg (fst (is_new_account cfg e a)) sid"
  | rsn where
    "get_classification d \<noteq> JStr ''NEUTRAL''" "py_less (get_confidence d) (6 / 10) = Some False"
    "acct a \<notin> set (allowlist cfg)"
    "\<not> (fst (is_new_account cfg e a) \<and> new_account_instant_block cfg)"
    "hostile d" "map_of d ''reason'' = Some rsn"
    "\<not> warning_due cfg (fst (is_new_account cfg e a)) sid"
  | "get_classification d \<noteq> JStr ''NEUTRAL''" "py_less (get_confidence d) (6 / 10) = Some False"
    "acct a \<notin> set (allowlist cfg)" "\<not> hostile d"
    "warning_due cfg (fst (is_new_account cfg e a)) sid"
  | "get_classification d \<noteq> JStr ''NEUTRAL''" "py_less (get_confidence d) (6 / 10) = Some False"
    "acct a \<notin> set (allowlist cfg)" "\<not> hostile d"
    "\<not> warning_due cfg (fst (is_new_account cfg e a)) sid"
proof -
  have "py_less (get_confidence d) (6 / 10) = None \<or>
        py_less (get_confidence d) (6 / 10) = Some True \<or>
        py_less (get_confidence d) (6 / 10) = Some False"
    by (rule py_less_cases)
  moreover have "map_of d ''reason'' = None \<or> (\<exists>rsn. map_of d ''reason'' = Some rsn)"
    by (cases "map_of d ''reason''") simp_all
  ultimately show ?thesis
    using that by blast
qed

section \<open>New accounts\<close>

lemma is_new_account_young:
  "created_at a = Some created \<Longrightarrow> (now e - created) div 86400 \<le> new_account_days cfg \<Longrightarrow>
   is_new_account cfg e a = (True, [Log_new_account (acct a) ((now e - created) div 86400)])"
  by (simp add: is_new_account_def Let_def)

text \<open>
  The instant-block branch itself, for an account whose creation time parses: an author
  outside the allowlist, at most \<open>new_account_days\<close> days old, with
  \<open>new_account_instant_block\<close> set and a verdict MILDLY_NEGATIVE or SEVERELY_NEGATIVE
  of confidence at least 0.6. In live mode the one client call is \<open>account_block\<close>,
  in dry-run mode the block is only logged, and the ledger is returned untouched.
\<close>

lemma new_account_instant_block_no_infraction:
  assumes "acct a \<notin> set (allowlist cfg)"
    and "created_at a = Some created"
    and "(now e - created) div 86400 \<le> new_account_days cfg"
    and "new_account_instant_block cfg"
    and "get_classification d = JStr ''MILDLY_NEGATIVE'' \<or>
         get_classification d = JStr ''SEVERELY_NEGATIVE''"
    and "py_less (get_confidence d) (6 / 10) = Some False"
  shows "take_action cfg e t a d sid =
           \<lparr>tracker_after = t,
            events =
              [Log_new_account (acct a) ((now e - created) div 86400),
               Log_new_hostile (acct a)] @
              (if dry_run cfg then [Log_dry_run_instant_block (acct a)]
               else [Call_account_block (account_id a),
                     case account_block e (account_id a) of
                       None \<Rightarrow> Log_blocked_new (acct a)
                     | Some x \<Rightarrow> Log_block_failed (acct a) x]),
            raised = None\<rparr> \<and>
         get_count (tracker_after (take_action cfg e t a d sid)) (acct a) = get_count t (acct a)"
proof -
  have new: "is_new_account cfg e a =
      (True, [Log_new_account (acct a) ((now e - created) div 86400)])"
    using assms(2,3) by (rule is_new_account_young)
  from assms(5) have nn: "get_classification d \<noteq> JStr ''NEUTRAL''"
    by auto
  from assms(5) have hostile:
    "get_classification d \<in> set [JStr ''MILDLY_NEGATIVE'', JStr ''SEVERELY_NEGATIVE'']"
    by auto
  have eq: "take_action cfg e t a d sid =
           \<lparr>tracker_after = t,
            events =
              [Log_new_account (acct a) ((now e - created) div 86400),
               Log_new_hostile (acct a)] @
              (if dry_run cfg then [Log_dry_run_instant_block (acct a)]
               else [Call_account_block (account_id a),
                     case account_block e (account_id a) of
                       None \<Rightarrow> Log_blocked_new (acct a)
                     | Some x \<Rightarrow> Log_block_failed (acct a) x]),
            raised = None\<rparr>"
    using nn hostile assms(1,4,6) new
    by (simp add: take_action_def Let_def split: option.splits)
  then show ?thesis by simp
qed

lemma new_account_instant_block_at_five_days:
  "acct newcomer \<notin> set (allowlist default_config) \<and>
   created_at newcomer = Some (395 * 86400) \<and>
   (now day400 - 395 * 86400) div 86400 = 5 \<and>
   new_account_days default_config = 30 \<and>
   new_account_instant_block default_config \<and>
   get_classification mild_verdict_08 = JStr ''MILDLY_NEGATIVE'' \<and>
   py_less (get_confidence mild_verdict_08) (6 / 10) = Some False \<and>
   events (take_action default_config day400 Map.empty newcomer mild_verdict_08 (Some ''104'')) =
     [Log_new_account ''alt@example.org'' 5, Log_new_hostile ''alt@example.org'',
      Log_dry_run_instant_block ''alt@example.org''] \<and>
   events (take_action (default_config\<lparr>dry_run := False\<rparr>) day400 Map.empty newcomer
             mild_verdict_08 (Some ''104'')) =
     [Log_new_account ''alt@example.org'' 5, Log_new_hostile ''alt@example.org'',
      Call_account_block ''8'', Log_blocked_new ''alt@example.org''] \<and>
   get_count (tracker_after (take_action default_config day400 Map.empty newcomer
                mild_verdict_08 (Some ''104''))) ''alt@example.org'' = 0"
proof -
  have h1: "acct newcomer \<notin> set (allowlist default_config)"
    by (simp add: newcomer_def default_config_def)
  have h1': "acct newcomer \<notin> set (allowlist (default_config\<lparr>dry_run := False\<rparr>))"
    by (simp add: newcomer_def default_config_def)
  have h2: "created_at newcomer = Some (395 * 86400)"
    by (simp add: newcomer_def)
  have age: "(now day400 - 395 * 86400) div 86400 = 5"
    by (simp add: day400_def)
  have h3: "(now day400 - 395 * 86400) div 86400 \<le> new_account_days default_config"
    by (simp add: day400_def default_config_def)
  have h3': "(now day400 - 395 * 86400) div 86400
      \<le> new_account_days (default_config\<lparr>dry_run := False\<rparr>)"
    by (simp add: day400_def default_config_def)
  have h4: "new_account_instant_block default_config"
    by (simp add: default_config_def)
  have h4': "new_account_instant_block (default_config\<lparr>dry_run := False\<rparr>)"
    by (simp add: default_config_def)
  have c: "get_classification mild_verdict_08 = JStr ''MILDLY_NEGATIVE''"
    by (simp add: get_classification_def mild_verdict_08_def)
  then have h5: "get_classification mild_verdict_08 = JStr ''MILDLY_NEGATIVE'' \<or>
      get_classification mild_verdict_08 = JStr ''SEVERELY_NEGATIVE''" ..
  have h6: "py_less (get_confidence mild_verdict_08) (6 / 10) = Some False"
    by (simp add: py_less_def get_confidence_def mild_verdict_08_def)
  have d: "dry_run default_config"
    by (simp add: default_config_def)
  have n30: "new_account_days default_config = 30"
    by (simp add: default_config_def)
  note dry = new_account_instant_block_no_infraction
    [OF h1 h2 h3 h4 h5 h6, of Map.empty "Some ''104''"]
  note live = new_account_instant_block_no_infraction
    [OF h1' h2 h3' h4' h5 h6, of Map.empty "Some ''104''"]
  have g0: "get_count Map.empty ''alt@example.org'' = 0"
    by (simp add: get_count_def)
  have an: "acct newcomer = ''alt@example.org''" "account_id newcomer = ''8''"
    by (simp_all add: newcomer_def)
  have ab: "account_block day400 ''8'' = None"
    by (simp add: day400_def)
  show ?thesis
    using dry live h1 h2 age h4 c h6 d g0 n30 an ab by simp
qed

lemma unparsed_creation_time_is_established:
  "created_at a = None \<Longrightarrow> is_new_account cfg e a = (False, [Log_age_error])"
  by (simp add: is_new_account_def)

text \<open>
  Claim C5. The account aged 5 days, as the Mastodon client delivers it, with the default
  30-day window, \<open>new_account_instant_block\<close> set and a MILDLY_NEGATIVE verdict of
  confidence 0.8: \<open>date_parser.parse\<close> raises on the \<open>datetime\<close> object,
  \<open>_is_new_account\<close> answers False, and \<open>take_action\<close> treats the author as
  established. It records an infraction (the count becomes 1) and raises at the warning
  call; no block is issued or logged, in dry-run and in live mode. With
  \<open>send_warnings\<close> off the author is muted, not blocked.
\<close>

theorem new_account_from_api_is_not_blocked:
  "is_new_account default_config day400 newcomer_from_api = (False, [Log_age_error]) \<and>
   raised (take_action default_config day400 Map.empty newcomer_from_api mild_verdict_08
      (Some ''104'')) = Some AttributeError \<and>
   events (take_action default_config day400 Map.empty newcomer_from_api mild_verdict_08
      (Some ''104'')) = [Log_age_error] \<and>
   get_count (tracker_after (take_action default_config day400 Map.empty newcomer_from_api
      mild_verdict_08 (Some ''104''))) ''alt@example.org'' = 1 \<and>
   events (take_action (default_config\<lparr>dry_run := False\<rparr>) day400 Map.empty
      newcomer_from_api mild_verdict_08 (Some ''104'')) = [Log_age_error] \<and>
   events (take_action (default_config\<lparr>dry_run := False, send_warnings := False\<rparr>) day400
      Map.empty newcomer_from_api mild_verdict_08 (Some ''104'')) =
     [Log_age_error, Log_executing ''mute'' ''alt@example.org'' 1, Call_account_mute ''8'',
      Log_success ''mute'' ''alt@example.org'']"
  by (simp add: take_action_def Let_def default_config_def day400_def newcomer_from_api_def
      mild_verdict_08_def get_classification_def get_confidence_def py_less_def
      is_new_account_def warning_due_def truthy_def add_infraction_def get_count_def
      determine_action_def execute_action_def)

section \<open>The result of analyze\<close>

lemma attempt_well_formed: "attempt r = Inr d \<Longrightarrow> well_formed d"
  by (cases r)
    (auto simp: attempt_def well_formed_def required_keys_def
      split: if_splits option.splits)

lemma valid_classification_hashable: "c \<in> set valid_classifications \<Longrightarrow> hashable c"
  by (auto simp: valid_classifications_def)

lemma attempt_succeeds_iff: "attempt r = Inr d \<longleftrightarrow> r = Loaded_dict d \<and> well_formed d"
  by (cases r)
    (auto simp: attempt_def well_formed_def required_keys_def valid_classification_hashable
      split: if_splits option.splits)

lemma well_formed_fail_safe: "well_formed fail_safe"
  by (simp add: well_formed_def fail_safe_def valid_classifications_def)

lemma retry_loop_well_formed: "well_formed (retry_loop replies i k)"
proof (induction k arbitrary: i)
  case 0
  then show ?case by (simp add: well_formed_fail_safe)
next
  case (Suc k)
  show ?case
  proof (cases "attempt (replies i)")
    case (Inl x)
    then show ?thesis by (simp add: Suc.IH)
  next
    case (Inr d)
    then show ?thesis by (simp add: attempt_well_formed)
  qed
qed

lemma retry_loop_exhausted:
  "(\<forall>j<k. isl (attempt (replies (i + j)))) \<Longrightarrow> retry_loop replies i k = fail_safe"
proof (induction k arbitrary: i)
  case 0
  then show ?case by simp
next
  case (Suc k)
  from Suc.prems have first: "isl (attempt (replies i))"
    by (metis add.right_neutral zero_less_Suc)
  have rest: "\<forall>j<k. isl (attempt (replies (Suc i + j)))"
  proof (intro allI impI)
    fix j assume "j < k"
    then have "Suc j < Suc k" by simp
    with Suc.prems have "isl (attempt (replies (i + Suc j)))" by blast
    then show "isl (attempt (replies (Suc i + j)))" by simp
  qed
  from first obtain x where "attempt (replies i) = Inl x"
    by (cases "attempt (replies i)") auto
  then show ?case
    by (simp add: Suc.IH [OF rest])
qed

lemma retry_loop_first_success:
  "attempt (replies i) = Inr d \<Longrightarrow> retry_loop replies i (Suc k) = d"
  by simp

lemma analyze_well_formed: "well_formed (analyze cfg e text)"
  by (simp add: analyze_def retry_loop_well_formed)

lemma analyze_exhausted:
  "(\<forall>i < nat (max_retries cfg). isl (attempt (chat e text i))) \<Longrightarrow>
   analyze cfg e text = fail_safe"
  using retry_loop_exhausted [of "nat (max_retries cfg)" "chat e text" 0]
  by (simp add: analyze_def)

lemma take_action_fail_safe:
  "take_action cfg e t a fail_safe sid =
     \<lparr>tracker_after = t, events = [Log_no_action (acct a)], raised = None\<rparr>"
  by (rule take_action_neutral) (simp add: get_classification_def fail_safe_def)

lemma take_action_zero_confidence:
  assumes "get_confidence d = JNum 0"
  shows "tracker_after (take_action cfg e t a d sid) = t \<and>
         filter is_api_call (events (take_action cfg e t a d sid)) = [] \<and>
         raised (take_action cfg e t a d sid) = None"
proof (cases "get_classification d = JStr ''NEUTRAL''")
  case True
  then show ?thesis by (simp add: take_action_neutral)
next
  case False
  moreover from assms have "py_less (get_confidence d) (6 / 10) = Some True"
    by (simp add: py_less_def)
  ultimately show ?thesis by (simp add: take_action_low_confidence)
qed

text \<open>
  Claim C7. \<open>analyze\<close> returns a verdict on every input and for every behaviour of
  the classifier: a reply that passed validation, or the fail-safe. When all
  \<open>max_retries\<close> attempts fail (the chat call raises, the JSON does not parse, a key
  is missing, the classification is not one of the three, the confidence is not a
  number), the result is the fail-safe NEUTRAL verdict with confidence 0.0 and the reason
  "AI analysis failed ...". On the fail-safe \<open>take_action\<close> does nothing but log, and
  the confidence 0.0 alone already stops any verdict at the confidence check.
\<close>

theorem analyze_degrades_to_fail_safe:
  "well_formed (analyze cfg e text) \<and>
   ((\<forall>i < nat (max_retries cfg). isl (attempt (chat e text i))) \<longrightarrow>
      analyze cfg e text = fail_safe) \<and>
   get_classification fail_safe = JStr ''NEUTRAL'' \<and>
   get_confidence fail_safe = JNum 0 \<and>
   map_of fail_safe ''reason'' =
     Some (JStr ''AI analysis failed - defaulting to safe classification'') \<and>
   take_action cfg e t a fail_safe sid =
     \<lparr>tracker_after = t, events = [Log_no_action (acct a)], raised = None\<rparr> \<and>
   (get_confidence d = JNum 0 \<longrightarrow>
      tracker_after (take_action cfg e t a d sid) = t \<and>
      filter is_api_call (events (take_action cfg e t a d sid)) = [] \<and>
      raised (take_action cfg e t a d sid) = None)"
proof -
  have "get_classification fail_safe = JStr ''NEUTRAL''"
    and "get_confidence fail_safe = JNum 0"
    and "map_of fail_safe ''reason'' =
      Some (JStr ''AI analysis failed - defaulting to safe classification'')"
    by (simp_all add: get_classification_def get_confidence_def fail_safe_def)
  then show ?thesis
    using analyze_well_formed analyze_exhausted take_action_fail_safe
      take_action_zero_confidence
    by blast
qed

theorem analyze_degrades_to_fail_safe_witness:
  "max_retries default_config = 3 \<and>
   list_all (\<lambda>i. isl (attempt (chat malformed_json ''you are wrong'' i))) [0, 1, 2] \<and>
   analyze default_config malformed_json ''you are wrong'' = fail_safe \<and>
   take_action default_config malformed_json Map.empty established
      (analyze default_config malformed_json ''you are wrong'') (Some ''105'') =
     \<lparr>tracker_after = Map.empty, events = [Log_no_action ''troll@example.org''],
      raised = None\<rparr> \<and>
   get_confidence [(''classification'', JStr ''SEVERELY_NEGATIVE''), (''confidence'', JNum 0)]
     = JNum 0 \<and>
   raised (take_action default_config malformed_json Map.empty established
      [(''classification'', JStr ''SEVERELY_NEGATIVE''), (''confidence'', JNum 0)]
      (Some ''105'')) = None"
proof -
  have m: "max_retries default_config = 3"
    by (simp add: default_config_def)
  have f: "isl (attempt (chat malformed_json ''you are wrong'' i))" for i
    by (simp add: malformed_json_def attempt_def)
  then have all: "\<forall>i < nat (max_retries default_config).
      isl (attempt (chat malformed_json ''you are wrong'' i))"
    by simp
  have z: "get_confidence
      [(''classification'', JStr ''SEVERELY_NEGATIVE''), (''confidence'', JNum 0)] = JNum 0"
    by (simp add: get_confidence_def)
  note w = analyze_degrades_to_fail_safe
    [of default_config malformed_json "''you are wrong''" Map.empty established "Some ''105''"
      "[(''classification'', JStr ''SEVERELY_NEGATIVE''), (''confidence'', JNum 0)]"]
  from w all have a: "analyze default_config malformed_json ''you are wrong'' = fail_safe"
    by blast
  from w z have r: "raised (take_action default_config malformed_json Map.empty established
      [(''classification'', JStr ''SEVERELY_NEGATIVE''), (''confidence'', JNum 0)]
      (Some ''105'')) = None"
    by blast
  from w have t: "take_action default_config malformed_json Map.empty established fail_safe
      (Some ''105'') =
     \<lparr>tracker_after = Map.empty, events = [Log_no_action (acct established)],
      raised = None\<rparr>"
    by blast
  show ?thesis
    using m f a r t z by (simp add: established_def)
qed

lemmas eval_defs =
  take_action_def Let_def default_config_def day400_def established_def severe_verdict_def
  mild_verdict_def get_classification_def get_confidence_def py_less_def is_new_account_def
  warning_due_def truthy_def add_infraction_def get_count_def determine_action_def
  execute_action_def

lemmas run_defs =
  poll_cycle_def process_notification_def analyze_def attempt_def required_keys_def
  valid_classifications_def logged_def mark_processed_def is_processed_def
  initial_state_def mention_1_def mention_2_def eval_nat_numeral

section \<open>Dry run\<close>

lemma is_new_account_dry_run [simp]:
  "is_new_account (cfg\<lparr>dry_run := b\<rparr>) e a = is_new_account cfg e a"
  by (simp add: is_new_account_def Let_def split: option.splits)

lemma warning_due_dry_run [simp]:
  "warning_due (cfg\<lparr>dry_run := b\<rparr>) n sid = warning_due cfg n sid"
  by (simp add: warning_due_def)

lemma determine_action_dry_run [simp]:
  "determine_action (cfg\<lparr>dry_run := b\<rparr>) c k = determine_action cfg c k"
  by (simp add: determine_action_def)

lemma analyze_dry_run [simp]:
  "analyze (cfg\<lparr>dry_run := b\<rparr>) e text = analyze cfg e text"
  by (simp add: analyze_def)

lemma execute_action_dry:
  "execute_action (cfg\<lparr>dry_run := True\<rparr>) e i u act k =
     [Log_executing act u k, Log_dry_run act u]"
  by (simp add: execute_action_def)

lemma take_action_frame_dry_run:
  "tracker_after (take_action (cfg\<lparr>dry_run := b\<rparr>) e t a d sid) =
     tracker_after (take_action cfg e t a d sid) \<and>
   raised (take_action (cfg\<lparr>dry_run := b\<rparr>) e t a d sid) =
     raised (take_action cfg e t a d sid)"
proof (cases rule: take_action_path_cases [where d = d and a = a and cfg = cfg and e = e and sid = sid])
  case neutral
  then show ?thesis by (simp add: take_action_neutral)
next
  case not_a_number
  then show ?thesis by (simp add: take_action_not_a_number)
next
  case low_confidence
  then show ?thesis by (simp add: take_action_low_confidence)
next
  case allowlisted
  then show ?thesis by (simp add: take_action_allowlisted)
next
  case instant_block
  then show ?thesis by (simp add: take_action_instant_block)
next
  case no_reason
  then show ?thesis by (simp add: take_action_no_reason)
next
  case (hostile_warning rsn)
  then show ?thesis by (simp add: take_action_hostile_warning)
next
  case (hostile_acts rsn)
  then show ?thesis by (simp add: take_action_hostile_acts)
next
  case other_warning
  then show ?thesis by (simp add: take_action_other_warning)
next
  case other_tracks
  then show ?thesis by (simp add: take_action_other_tracks)
qed

lemma is_new_account_no_call: "filter is_api_call (snd (is_new_account cfg e a)) = []"
  by (simp add: is_new_account_def Let_def split: option.splits)

lemma take_action_dry_no_call:
  "filter is_api_call (events (take_action (cfg\<lparr>dry_run := True\<rparr>) e t a d sid)) = []"
proof (cases rule: take_action_path_cases [where d = d and a = a and cfg = cfg and e = e and sid = sid])
  case neutral
  then show ?thesis by (simp add: take_action_neutral)
next
  case not_a_number
  then show ?thesis by (simp add: take_action_not_a_number)
next
  case low_confidence
  then show ?thesis by (simp add: take_action_low_confidence)
next
  case allowlisted
  then show ?thesis by (simp add: take_action_allowlisted)
next
  case instant_block
  then show ?thesis by (simp add: take_action_instant_block is_new_account_no_call)
next
  case no_reason
  then show ?thesis by (simp add: take_action_no_reason is_new_account_no_call)
next
  case (hostile_warning rsn)
  then show ?thesis by (simp add: take_action_hostile_warning is_new_account_no_call)
next
  case (hostile_acts rsn)
  then show ?thesis
    by (simp add: take_action_hostile_acts is_new_account_no_call execute_action_dry)
next
  case other_warning
  then show ?thesis by (simp add: take_action_other_warning is_new_account_no_call)
next
  case other_tracks
  then show ?thesis by (simp add: take_action_other_tracks is_new_account_no_call)
qed

text \<open>
  Claim C10. \<open>dry_run\<close> is set in the default configuration. With it set,
  \<open>take_action\<close> sends no \<open>account_mute\<close> and no
  \<open>account_block\<close> to the client, and \<open>_execute_action\<close> only logs the action it
  would have taken; the ledger after the call, the exception raised (if any), and hence
  the ledger and the set of processed ids after \<open>process_notification\<close>, are the same
  as in live mode.
\<close>

theorem dry_run_only_logs:
  "dry_run default_config \<and>
   filter is_api_call (events (take_action (cfg\<lparr>dry_run := True\<rparr>) e t a d sid)) = [] \<and>
   execute_action (cfg\<lparr>dry_run := True\<rparr>) e i u act k =
     [Log_executing act u k, Log_dry_run act u] \<and>
   tracker_after (take_action (cfg\<lparr>dry_run := True\<rparr>) e t a d sid) =
     tracker_after (take_action (cfg\<lparr>dry_run := False\<rparr>) e t a d sid) \<and>
   raised (take_action (cfg\<lparr>dry_run := True\<rparr>) e t a d sid) =
     raised (take_action (cfg\<lparr>dry_run := False\<rparr>) e t a d sid) \<and>
   infractions (fst (process_notification (cfg\<lparr>dry_run := True\<rparr>) e st n)) =
     infractions (fst (process_notification (cfg\<lparr>dry_run := False\<rparr>) e st n)) \<and>
   processed_ids (fst (process_notification (cfg\<lparr>dry_run := True\<rparr>) e st n)) =
     processed_ids (fst (process_notification (cfg\<lparr>dry_run := False\<rparr>) e st n)) \<and>
   snd (process_notification (cfg\<lparr>dry_run := True\<rparr>) e st n) =
     snd (process_notification (cfg\<lparr>dry_run := False\<rparr>) e st n) \<and>
   filter is_api_call (trace (fst (process_notification (cfg\<lparr>dry_run := True\<rparr>) e st n))) =
     filter is_api_call (trace st)"
proof -
  let ?d = "analyze cfg e (content n)"
  let ?t = "infractions st"
  let ?s = "Some (status_id n)"
  have tr: "tracker_after (take_action (cfg\<lparr>dry_run := True\<rparr>) e t' a' d' s') =
      tracker_after (take_action (cfg\<lparr>dry_run := False\<rparr>) e t' a' d' s')" for t' a' d' s'
    by (simp add: take_action_frame_dry_run)
  have ra: "raised (take_action (cfg\<lparr>dry_run := True\<rparr>) e t' a' d' s') =
      raised (take_action (cfg\<lparr>dry_run := False\<rparr>) e t' a' d' s')" for t' a' d' s'
    by (simp add: take_action_frame_dry_run)
  have nc: "filter is_api_call
      (events (take_action (cfg\<lparr>dry_run := True\<rparr>) e t' a' d' s')) = []" for t' a' d' s'
    by (rule take_action_dry_no_call)
  have p1: "infractions (fst (process_notification (cfg\<lparr>dry_run := True\<rparr>) e st n)) =
     infractions (fst (process_notification (cfg\<lparr>dry_run := False\<rparr>) e st n))"
    by (simp add: process_notification_def Let_def logged_def mark_processed_def
        tr [of ?t "author n" ?d ?s] ra [of ?t "author n" ?d ?s] split: option.splits)
  have p2: "processed_ids (fst (process_notification (cfg\<lparr>dry_run := True\<rparr>) e st n)) =
     processed_ids (fst (process_notification (cfg\<lparr>dry_run := False\<rparr>) e st n))"
    by (simp add: process_notification_def Let_def logged_def mark_processed_def
        ra [of ?t "author n" ?d ?s] split: option.splits)
  have p3: "snd (process_notification (cfg\<lparr>dry_run := True\<rparr>) e st n) =
     snd (process_notification (cfg\<lparr>dry_run := False\<rparr>) e st n)"
    by (simp add: process_notification_def Let_def logged_def mark_processed_def
        ra [of ?t "author n" ?d ?s] split: option.splits)
  have p4: "filter is_api_call
      (trace (fst (process_notification (cfg\<lparr>dry_run := True\<rparr>) e st n))) =
     filter is_api_call (trace st)"
    by (simp add: process_notification_def Let_def logged_def mark_processed_def
        nc [of ?t "author n" ?d ?s] split: option.splits)
  show ?thesis
    using nc [of t a d sid] tr [of t a d sid] ra [of t a d sid] p1 p2 p3 p4
    by (simp add: execute_action_dry default_config_def)
qed

theorem dry_run_only_logs_witness:
  "events (take_action (default_config\<lparr>send_warnings := False, dry_run := True\<rparr>) day400
      Map.empty established severe_verdict (Some ''103'')) =
     [Log_executing ''mute'' ''troll@example.org'' 1,
      Log_dry_run ''mute'' ''troll@example.org''] \<and>
   events (take_action (default_config\<lparr>send_warnings := False, dry_run := False\<rparr>) day400
      Map.empty established severe_verdict (Some ''103'')) =
     [Log_executing ''mute'' ''troll@example.org'' 1, Call_account_mute ''7'',
      Log_success ''mute'' ''troll@example.org''] \<and>
   get_count (tracker_after (take_action (default_config\<lparr>send_warnings := False, dry_run := True\<rparr>)
      day400 Map.empty established severe_verdict (Some ''103''))) ''troll@example.org'' = 1 \<and>
   get_count (tracker_after (take_action (default_config\<lparr>send_warnings := False, dry_run := False\<rparr>)
      day400 Map.empty established severe_verdict (Some ''103''))) ''troll@example.org'' = 1 \<and>
   processed_ids (fst (process_notification
      (default_config\<lparr>send_warnings := False, dry_run := False\<rparr>) day400 initial_state
      mention_1)) = {''n1''}"
  using dry_run_only_logs [of "default_config\<lparr>send_warnings := False\<rparr>" day400 Map.empty
      established severe_verdict "Some ''103''" "''7''" "''troll@example.org''" "''mute''" 1
      initial_state mention_1]
  by (simp add: run_defs eval_defs)

section \<open>The call of the undefined warning method\<close>

text \<open>
  Claim C1. A warning is due for the established author of a SEVERELY_NEGATIVE post under
  the default configuration in live mode. \<open>take_action\<close> records the infraction and
  then raises \<open>AttributeError\<close> at the call of the undefined \<open>_send_warning\<close>: no
  warning is delivered, and the mute that \<open>_determine_action\<close> would choose for count
  1 is never executed. With \<open>send_warnings\<close> off the same input is muted.
\<close>

theorem warning_call_stops_take_action:
  "raised (take_action (default_config\<lparr>dry_run := False\<rparr>) day400 Map.empty established
      severe_verdict (Some ''103'')) = Some AttributeError \<and>
   events (take_action (default_config\<lparr>dry_run := False\<rparr>) day400 Map.empty established
      severe_verdict (Some ''103'')) = [] \<and>
   get_count (tracker_after (take_action (default_config\<lparr>dry_run := False\<rparr>) day400 Map.empty
      established severe_verdict (Some ''103''))) ''troll@example.org'' = 1 \<and>
   determine_action (default_config\<lparr>dry_run := False\<rparr>) (JStr ''SEVERELY_NEGATIVE'') 1 = ''mute'' \<and>
   events (take_action (default_config\<lparr>dry_run := False, send_warnings := False\<rparr>) day400
      Map.empty established severe_verdict (Some ''103'')) =
     [Log_executing ''mute'' ''troll@example.org'' 1, Call_account_mute ''7'',
      Log_success ''mute'' ''troll@example.org'']"
  by (simp add: eval_defs)

text \<open>
  The escalation table of \<open>_determine_action\<close> as \<open>take_action\<close> applies it on the
  path where no warning is due: the infraction is recorded first and the action follows
  from the count after it.
\<close>

lemma escalation_when_no_warning_is_due:
  assumes "hostile d"
    and "py_less (get_confidence d) (6 / 10) = Some False"
    and "acct a \<notin> set (allowlist cfg)"
    and "\<not> (fst (is_new_account cfg e a) \<and> new_account_instant_block cfg)"
    and "map_of d ''reason'' = Some rsn"
    and "\<not> warning_due cfg (fst (is_new_account cfg e a)) sid"
    and "k = get_count t (acct a) + 1"
  shows "tracker_after (take_action cfg e t a d sid) =
           add_infraction t (acct a) (get_classification d) rsn (now e) \<and>
         get_count (tracker_after (take_action cfg e t a d sid)) (acct a) = k \<and>
         raised (take_action cfg e t a d sid) = None \<and>
         events (take_action cfg e t a d sid) =
           snd (is_new_account cfg e a) @
           (if get_classification d = JStr ''SEVERELY_NEGATIVE'' then
              execute_action cfg e (account_id a) (acct a)
                (if k \<ge> block_threshold cfg then ''block'' else ''mute'') k
            else if k \<ge> block_threshold cfg then
              execute_action cfg e (account_id a) (acct a) ''block'' k
            else if k \<ge> mute_threshold cfg then
              execute_action cfg e (account_id a) (acct a) ''mute'' k
            else [Log_tracking k (acct a)])"
proof -
  from assms(1) have nn: "get_classification d \<noteq> JStr ''NEUTRAL''"
    by (auto simp: hostile_def)
  from assms(1) have cls: "get_classification d = JStr ''SEVERELY_NEGATIVE'' \<or>
      get_classification d = JStr ''MILDLY_NEGATIVE''"
    by (auto simp: hostile_def)
  note eq = take_action_hostile_acts [OF nn assms(2,3,4,1,5,6), of t]
  from cls show ?thesis
    by (auto simp: eq assms(7) determine_action_def get_count_add_same)
qed

text \<open>
  Claim C6. With \<open>mute_threshold = 1\<close>, \<open>block_threshold = 3\<close> and the other
  defaults, three consecutive MILDLY_NEGATIVE verdicts of confidence 0.9 on an established
  author raise the count to 1, 2 and 3, for which \<open>_determine_action\<close> gives mute,
  mute and block; but each call of \<open>take_action\<close> raises \<open>AttributeError\<close> after
  recording the infraction, so none of the three actions is determined or executed.
\<close>

theorem three_mild_events_raise:
  "map raised (take_actions default_config day400 Map.empty established three_mild_events) =
     [Some AttributeError, Some AttributeError, Some AttributeError] \<and>
   map events (take_actions default_config day400 Map.empty established three_mild_events) =
     [[], [], []] \<and>
   map (\<lambda>out. get_count (tracker_after out) ''troll@example.org'')
     (take_actions default_config day400 Map.empty established three_mild_events) = [1, 2, 3] \<and>
   map (determine_action default_config (JStr ''MILDLY_NEGATIVE'')) [1, 2, 3] =
     [''mute'', ''mute'', ''block'']"
  by (simp add: three_mild_events_def eval_defs)

text \<open>The same three verdicts with \<open>send_warnings\<close> off: mute, mute, block.\<close>

lemma three_mild_events_without_warnings:
  "map events (take_actions (default_config\<lparr>send_warnings := False\<rparr>) day400 Map.empty
     established three_mild_events) =
     [[Log_executing ''mute'' ''troll@example.org'' 1, Log_dry_run ''mute'' ''troll@example.org''],
      [Log_executing ''mute'' ''troll@example.org'' 2, Log_dry_run ''mute'' ''troll@example.org''],
      [Log_executing ''block'' ''troll@example.org'' 3,
       Log_dry_run ''block'' ''troll@example.org'']]"
  by (simp add: three_mild_events_def eval_defs)

section \<open>Deduplication\<close>

lemma is_new_account_handler: "list_all is_handler_event (snd (is_new_account cfg e a))"
  by (simp add: is_new_account_def Let_def split: option.splits)

lemma execute_action_handler: "list_all is_handler_event (execute_action cfg e i u act k)"
  by (simp add: execute_action_def split: option.splits)

lemma take_action_handler: "list_all is_handler_event (events (take_action cfg e t a d sid))"
proof (cases rule: take_action_path_cases [where d = d and a = a and cfg = cfg and e = e and sid = sid])
  case neutral
  then show ?thesis by (simp add: take_action_neutral)
next
  case not_a_number
  then show ?thesis by (simp add: take_action_not_a_number)
next
  case low_confidence
  then show ?thesis by (simp add: take_action_low_confidence)
next
  case allowlisted
  then show ?thesis by (simp add: take_action_allowlisted)
next
  case instant_block
  then show ?thesis
    by (simp add: take_action_instant_block is_new_account_handler split: option.splits)
next
  case no_reason
  then show ?thesis by (simp add: take_action_no_reason is_new_account_handler)
next
  case (hostile_warning rsn)
  then show ?thesis by (simp add: take_action_hostile_warning is_new_account_handler)
next
  case (hostile_acts rsn)
  then show ?thesis
    by (simp add: take_action_hostile_acts is_new_account_handler execute_action_handler)
next
  case other_warning
  then show ?thesis by (simp add: take_action_other_warning is_new_account_handler)
next
  case other_tracks
  then show ?thesis by (simp add: take_action_other_tracks is_new_account_handler)
qed

lemma filter_handler_events:
  assumes "list_all is_handler_event evs" and "\<And>ev. P ev \<Longrightarrow> \<not> is_handler_event ev"
  shows "filter P evs = []"
  using assms by (induction evs) auto

lemma processing_not_handler: "is_processing_of i ev \<Longrightarrow> \<not> is_handler_event ev"
  by (cases ev) simp_all

lemma take_action_no_processing:
  "filter (is_processing_of i) (events (take_action cfg e t a d sid)) = []"
  by (rule filter_handler_events [OF take_action_handler processing_not_handler])

subsection \<open>One notification\<close>

lemma process_notification_trace:
  "trace (fst (process_notification cfg e st n)) =
     trace st @ Log_processing (acct (author n)) (notif_id n) #
       events (take_action cfg e (infractions st) (author n) (analyze cfg e (content n))
                 (Some (status_id n)))"
  by (simp add: process_notification_def Let_def logged_def mark_processed_def
      split: option.splits)

lemma process_notification_ids:
  "processed_ids (fst (process_notification cfg e st n)) =
     (if snd (process_notification cfg e st n) = None
      then insert (notif_id n) (processed_ids st) else processed_ids st)"
  by (simp add: process_notification_def Let_def logged_def mark_processed_def
      split: option.splits)

lemma process_notification_raised:
  "snd (process_notification cfg e st n) =
     raised (take_action cfg e (infractions st) (author n) (analyze cfg e (content n))
               (Some (status_id n)))"
  by (simp add: process_notification_def Let_def logged_def mark_processed_def
      split: option.splits)

lemma process_notification_other_id:
  "notif_id n \<noteq> i \<Longrightarrow>
   filter (is_processing_of i) (trace (fst (process_notification cfg e st n))) =
     filter (is_processing_of i) (trace st)"
  by (simp add: process_notification_trace take_action_no_processing)

subsection \<open>A batch\<close>

lemma process_all_keeps_ids:
  "i \<in> processed_ids st \<Longrightarrow> i \<in> processed_ids (fst (process_all cfg e st ns))"
proof (induction ns arbitrary: st)
  case Nil
  then show ?case by simp
next
  case (Cons n ns)
  obtain st' r where p: "process_notification cfg e st n = (st', r)"
    by (cases "process_notification cfg e st n")
  from Cons.prems have "i \<in> processed_ids (fst (process_notification cfg e st n))"
    by (simp add: process_notification_ids)
  with p have i': "i \<in> processed_ids st'" by simp
  show ?case
  proof (cases r)
    case None
    with p Cons.IH [OF i'] show ?thesis by simp
  next
    case (Some x)
    with p i' show ?thesis by simp
  qed
qed

lemma process_all_other_ids:
  "\<forall>n \<in> set ns. notif_id n \<noteq> i \<Longrightarrow>
   filter (is_processing_of i) (trace (fst (process_all cfg e st ns))) =
     filter (is_processing_of i) (trace st)"
proof (induction ns arbitrary: st)
  case Nil
  then show ?case by simp
next
  case (Cons n ns)
  obtain st' r where p: "process_notification cfg e st n = (st', r)"
    by (cases "process_notification cfg e st n")
  from Cons.prems have ne: "notif_id n \<noteq> i" and rest: "\<forall>n \<in> set ns. notif_id n \<noteq> i"
    by simp_all
  from process_notification_other_id [OF ne, of cfg e st] p
  have tr: "filter (is_processing_of i) (trace st') = filter (is_processing_of i) (trace st)"
    by simp
  show ?case
  proof (cases r)
    case None
    with p Cons.IH [OF rest, of st'] tr show ?thesis by simp
  next
    case (Some x)
    with p tr show ?thesis by simp
  qed
qed

subsection \<open>A poll cycle and the loop\<close>

lemma poll_cycle_marked:
  assumes "is_processed st i"
  shows "is_processed (poll_cycle cfg st e fetched) i \<and>
         filter (is_processing_of i) (trace (poll_cycle cfg st e fetched)) =
           filter (is_processing_of i) (trace st)"
proof (cases fetched)
  case (Inl x)
  with assms show ?thesis
    by (simp add: poll_cycle_def Let_def logged_def is_processed_def)
next
  case (Inr notifications)
  let ?st0 = "logged st [Log_checking]"
  let ?new = "filter (\<lambda>n. \<not> is_processed ?st0 (notif_id n)) notifications"
  let ?st1 = "logged ?st0 [Log_found (length ?new)]"
  from assms have in1: "i \<in> processed_ids ?st1"
    by (simp add: logged_def is_processed_def)
  from assms have "\<forall>n \<in> set ?new. notif_id n \<noteq> i"
    by (auto simp: logged_def is_processed_def)
  then have other: "\<forall>n \<in> set (rev ?new). notif_id n \<noteq> i"
    by simp
  obtain st' r where p: "process_all cfg e ?st1 (rev ?new) = (st', r)"
    by (cases "process_all cfg e ?st1 (rev ?new)")
  from process_all_keeps_ids [OF in1, of cfg e "rev ?new"] p
  have k: "i \<in> processed_ids st'" by simp
  from process_all_other_ids [OF other, of cfg e ?st1] p
  have f: "filter (is_processing_of i) (trace st') = filter (is_processing_of i) (trace st)"
    by (simp add: logged_def)
  show ?thesis
  proof (cases "?new = []")
    case True
    with Inr assms show ?thesis
      by (simp add: poll_cycle_def Let_def logged_def is_processed_def)
  next
    case False
    with Inr p k f show ?thesis
      by (cases r) (simp_all add: poll_cycle_def Let_def logged_def is_processed_def)
  qed
qed

lemma run_marked:
  "is_processed st i \<Longrightarrow>
   is_processed (run cfg st cycles) i \<and>
   filter (is_processing_of i) (trace (run cfg st cycles)) =
     filter (is_processing_of i) (trace st)"
proof (induction cycles arbitrary: st)
  case Nil
  then show ?case by simp
next
  case (Cons c cycles)
  obtain e fetched where c: "c = (e, fetched)"
    by (cases c)
  note step = poll_cycle_marked [OF Cons.prems, of cfg e fetched]
  from step have "is_processed (poll_cycle cfg st e fetched) i" ..
  from Cons.IH [OF this] step c show ?case by simp
qed

text \<open>
  Claim C9. After \<open>mark_processed\<close> the id is in the set of processed ids, and for a
  state in which an id is processed, any number of poll cycles, whatever they fetch and
  whatever the classifier and the client do, leave the id processed and add no
  "Processing mention" effect for it: \<open>process_notification\<close> is not entered again
  for a notification with that id, even when the fetched list still contains it.
\<close>

theorem marked_notification_never_reprocessed:
  "is_processed (mark_processed st0 i) i \<and>
   (is_processed st i \<longrightarrow>
      is_processed (run cfg st cycles) i \<and>
      filter (is_processing_of i) (trace (run cfg st cycles)) =
        filter (is_processing_of i) (trace st))"
  using run_marked [of st i cfg cycles]
  by (simp add: mark_processed_def is_processed_def)

theorem marked_notification_never_reprocessed_witness:
  "is_processed (mark_processed initial_state ''n1'') ''n1'' \<and>
   trace (run (default_config\<lparr>send_warnings := False\<rparr>) (mark_processed initial_state ''n1'')
     [(day400, Inr [mention_1, mention_2]), (day400, Inr [mention_1, mention_2])]) =
     [Log_checking, Log_found 1, Log_processing ''troll@example.org'' ''n2'',
      Log_executing ''mute'' ''troll@example.org'' 1, Log_dry_run ''mute'' ''troll@example.org'',
      Log_sleeping, Log_checking, Log_no_new, Log_sleeping] \<and>
   filter (is_processing_of ''n1'')
     (trace (run (default_config\<lparr>send_warnings := False\<rparr>) (mark_processed initial_state ''n1'')
       [(day400, Inr [mention_1, mention_2]), (day400, Inr [mention_1, mention_2])])) = [] \<and>
   is_processed (run (default_config\<lparr>send_warnings := False\<rparr>)
     (mark_processed initial_state ''n1'')
     [(day400, Inr [mention_1, mention_2]), (day400, Inr [mention_1, mention_2])]) ''n1''"
proof -
  have h: "is_processed (mark_processed initial_state ''n1'') ''n1''"
    by (simp add: is_processed_def mark_processed_def)
  have t: "trace (run (default_config\<lparr>send_warnings := False\<rparr>)
     (mark_processed initial_state ''n1'')
     [(day400, Inr [mention_1, mention_2]), (day400, Inr [mention_1, mention_2])]) =
     [Log_checking, Log_found 1, Log_processing ''troll@example.org'' ''n2'',
      Log_executing ''mute'' ''troll@example.org'' 1, Log_dry_run ''mute'' ''troll@example.org'',
      Log_sleeping, Log_checking, Log_no_new, Log_sleeping]"
    by (simp add: run_defs eval_defs)
  from marked_notification_never_reprocessed
    [of initial_state "''n1''" "mark_processed initial_state ''n1''"
       "default_config\<lparr>send_warnings := False\<rparr>"
       "[(day400, Inr [mention_1, mention_2]), (day400, Inr [mention_1, mention_2])]"]
  show ?thesis
    using h t by (simp add: initial_state_def mark_processed_def)
qed

section \<open>A batch of notifications\<close>

lemma well_formed_number: "well_formed d \<Longrightarrow> py_less (get_confidence d) x \<noteq> None"
  by (auto simp: well_formed_def get_confidence_def py_less_def split: option.splits)

lemma well_formed_reason: "well_formed d \<Longrightarrow> map_of d ''reason'' \<noteq> None"
  by (simp add: well_formed_def)

lemma well_formed_hostile:
  "well_formed d \<Longrightarrow> get_classification d \<noteq> JStr ''NEUTRAL'' \<Longrightarrow> hostile d"
  by (auto simp: well_formed_def get_classification_def hostile_def valid_classifications_def
      split: option.splits)

text \<open>
  On a verdict that \<open>analyze\<close> can return, the only exception that leaves
  \<open>take_action\<close> is the one of the warning call, and it does so exactly when that
  call is reached.
\<close>

lemma only_the_warning_call_escapes:
  assumes "well_formed d"
  shows "raised (take_action cfg e t a d sid) =
           (if get_classification d \<noteq> JStr ''NEUTRAL'' \<and>
               py_less (get_confidence d) (6 / 10) = Some False \<and>
               acct a \<notin> set (allowlist cfg) \<and>
               \<not> (fst (is_new_account cfg e a) \<and> new_account_instant_block cfg) \<and>
               warning_due cfg (fst (is_new_account cfg e a)) sid
            then Some AttributeError else None)"
proof (cases rule: take_action_path_cases [where d = d and a = a and cfg = cfg and e = e and sid = sid])
  case neutral
  then show ?thesis by (simp add: take_action_neutral)
next
  case not_a_number
  with well_formed_number [OF assms, of "6 / 10"] show ?thesis by simp
next
  case low_confidence
  then show ?thesis by (simp add: take_action_low_confidence)
next
  case allowlisted
  then show ?thesis by (simp add: take_action_allowlisted)
next
  case instant_block
  then show ?thesis by (simp add: take_action_instant_block)
next
  case no_reason
  with well_formed_reason [OF assms] show ?thesis by simp
next
  case (hostile_warning rsn)
  then show ?thesis by (simp add: take_action_hostile_warning)
next
  case (hostile_acts rsn)
  then show ?thesis by (simp add: take_action_hostile_acts)
next
  case other_warning
  with well_formed_hostile [OF assms] show ?thesis by simp
next
  case other_tracks
  with well_formed_hostile [OF assms] show ?thesis by simp
qed

lemma process_notification_escape:
  "snd (process_notification cfg e st n) = None \<or>
   snd (process_notification cfg e st n) = Some AttributeError"
  using only_the_warning_call_escapes
    [OF analyze_well_formed [of cfg e "content n"],
      where cfg = cfg and e = e and t = "infractions st" and a = "author n"
        and sid = "Some (status_id n)"]
  by (simp add: process_notification_raised)

text \<open>
  The classifier of \<open>day400\<close> answers every text with the severe verdict, on which
  \<open>take_action\<close> under the default configuration records the infraction and raises;
  a poll cycle that starts with nothing marked therefore ends with nothing marked.
\<close>

lemma analyze_day400: "analyze default_config day400 text = severe_verdict"
  by (simp add: analyze_def day400_def default_config_def attempt_def required_keys_def
      valid_classifications_def severe_verdict_def eval_nat_numeral)

lemma take_action_established_severe:
  "sid \<noteq> [] \<Longrightarrow>
   take_action default_config day400 t established severe_verdict (Some sid) =
     \<lparr>tracker_after = add_infraction t ''troll@example.org'' (JStr ''SEVERELY_NEGATIVE'')
        (JStr ''direct insult'') (400 * 86400),
      events = [], raised = Some AttributeError\<rparr>"
  by (simp add: take_action_def Let_def default_config_def day400_def established_def
      severe_verdict_def get_classification_def get_confidence_def py_less_def
      is_new_account_def warning_due_def truthy_def)

lemma unmarked_cycle:
  "processed_ids st = {} \<Longrightarrow>
   poll_cycle default_config st day400 (Inr [mention_1, mention_2]) =
     st\<lparr>infractions := add_infraction (infractions st) ''troll@example.org''
          (JStr ''SEVERELY_NEGATIVE'') (JStr ''direct insult'') (400 * 86400),
        trace := trace st @
          [Log_checking, Log_found 2, Log_processing ''troll@example.org'' ''n2'',
           Log_main_loop_error AttributeError, Log_sleeping]\<rparr>"
proof -
  have a: "acct established = ''troll@example.org''"
    by (simp add: established_def)
  assume "processed_ids st = {}"
  then show ?thesis
    by (simp add: poll_cycle_def process_notification_def Let_def logged_def is_processed_def
        mention_1_def mention_2_def analyze_day400 take_action_established_severe a)
qed

text \<open>
  Claim C2. Two unseen mentions of an established author are fetched under the default
  configuration and classified SEVERELY_NEGATIVE with confidence 0.95. The one processed
  first makes \<open>take_action\<close> raise at the warning call; the exception leaves
  \<open>process_notification\<close> before \<open>mark_processed\<close> and ends the \<open>for\<close> loop of
  \<open>run\<close>, whose handler logs it. Neither notification is marked processed and the
  other one is not processed in this cycle. The next cycle fetches both again, records
  a second infraction for the same post and fails the same way.
\<close>

theorem escaping_exception_aborts_batch:
  "processed_ids (poll_cycle default_config initial_state day400 (Inr [mention_1, mention_2])) = {} \<and>
   trace (poll_cycle default_config initial_state day400 (Inr [mention_1, mention_2])) =
     [Log_checking, Log_found 2, Log_processing ''troll@example.org'' ''n2'',
      Log_main_loop_error AttributeError, Log_sleeping] \<and>
   get_count (infractions (poll_cycle default_config initial_state day400
     (Inr [mention_1, mention_2]))) ''troll@example.org'' = 1 \<and>
   processed_ids (run default_config initial_state
     [(day400, Inr [mention_1, mention_2]), (day400, Inr [mention_1, mention_2])]) = {} \<and>
   get_count (infractions (run default_config initial_state
     [(day400, Inr [mention_1, mention_2]), (day400, Inr [mention_1, mention_2])]))
     ''troll@example.org'' = 2"
proof -
  have e: "processed_ids initial_state = {}"
    by (simp add: initial_state_def)
  note c1 = unmarked_cycle [OF e]
  have e1: "processed_ids (poll_cycle default_config initial_state day400
      (Inr [mention_1, mention_2])) = {}"
    by (simp add: c1 e)
  note c2 = unmarked_cycle [OF e1]
  have z: "get_count (infractions initial_state) ''troll@example.org'' = 0"
    by (simp add: initial_state_def get_count_def)
  have t: "trace initial_state = []"
    by (simp add: initial_state_def)
  have g1: "get_count (infractions (poll_cycle default_config initial_state day400
      (Inr [mention_1, mention_2]))) ''troll@example.org'' = 1"
    by (simp add: c1 get_count_add_same z)
  have g2: "get_count (infractions (poll_cycle default_config
      (poll_cycle default_config initial_state day400 (Inr [mention_1, mention_2])) day400
      (Inr [mention_1, mention_2]))) ''troll@example.org'' = 2"
    by (simp add: c2 get_count_add_same g1)
  have p2: "processed_ids (poll_cycle default_config
      (poll_cycle default_config initial_state day400 (Inr [mention_1, mention_2])) day400
      (Inr [mention_1, mention_2])) = {}"
    by (simp add: c2 e1)
  have tr: "trace (poll_cycle default_config initial_state day400 (Inr [mention_1, mention_2])) =
     [Log_checking, Log_found 2, Log_processing ''troll@example.org'' ''n2'',
      Log_main_loop_error AttributeError, Log_sleeping]"
    by (simp add: c1 t)
  show ?thesis
    using e1 tr g1 p2 g2 by simp
qed

text \<open>
  The sibling path: a failing \<open>account_mute\<close> is caught and logged inside
  \<open>_execute_action\<close>, both notifications are processed and both are marked.
\<close>

lemma failed_mute_keeps_the_batch_going:
  "account_mute failing_client ''7'' = Some ApiError \<and>
   processed_ids (poll_cycle live_without_warnings initial_state failing_client
     (Inr [mention_1, mention_2])) = {''n1'', ''n2''} \<and>
   trace (poll_cycle live_without_warnings initial_state failing_client
     (Inr [mention_1, mention_2])) =
     [Log_checking, Log_found 2,
      Log_processing ''troll@example.org'' ''n2'',
      Log_executing ''mute'' ''troll@example.org'' 1, Call_account_mute ''7'',
      Log_failed ''mute'' ''troll@example.org'' ApiError,
      Log_processing ''troll@example.org'' ''n1'',
      Log_executing ''mute'' ''troll@example.org'' 2, Call_account_mute ''7'',
      Log_failed ''mute'' ''troll@example.org'' ApiError,
      Log_sleeping]"
  by (simp add: run_defs eval_defs failing_client_def live_without_warnings_def)

end
